theory Spec2Isabelle
  imports Complex_Main "HOL-Library.Word"
begin

section \<open>Strings of the source language\<close>

text \<open>
  A JavaScript string is a finite sequence of 16-bit code units. Every string of the
  program (task ids, task texts, the input boxes, the persisted blob) is modelled as a
  list of 16-bit words, so that \<open>length\<close>, \<open>===\<close> and the character tests of
  \<open>trim\<close> and of the JSON grammar see exactly what the program sees.
\<close>

type_synonym jschar = "16 word"
type_synonym jsstring = "jschar list"

text \<open>String literals of the source whose characters are all below 256.\<close>

definition lit :: "string \<Rightarrow> jsstring" where
  "lit s = map of_char s"

text \<open>
  \<open>String.prototype.trim\<close> removes the WhiteSpace and LineTerminator code units of
  ECMAScript from both ends: TAB, LF, VT, FF, CR, SP, NBSP, the other space separators
  (U+1680, U+2000..U+200A, U+202F, U+205F, U+3000), LS, PS and the byte order mark.
\<close>

definition is_white_space :: "jschar \<Rightarrow> bool" where
  "is_white_space c \<longleftrightarrow>
     (0x09 \<le> c \<and> c \<le> 0x0D) \<or> c = 0x20 \<or> c = 0xA0 \<or> c = 0x1680 \<or>
     (0x2000 \<le> c \<and> c \<le> 0x200A) \<or> c = 0x2028 \<or> c = 0x2029 \<or> c = 0x202F \<or>
     c = 0x205F \<or> c = 0x3000 \<or> c = 0xFEFF"

definition trim :: "jsstring \<Rightarrow> jsstring" where
  "trim s = rev (dropWhile is_white_space (rev (dropWhile is_white_space s)))"

text \<open>\<open>s.includes(q)\<close>: \<open>q\<close> occurs in \<open>s\<close> as a contiguous run of code units.\<close>

fun includes_str :: "jsstring \<Rightarrow> jsstring \<Rightarrow> bool" where
  "includes_str [] q = (q = [])"
| "includes_str (c # cs) q = (take (length q) (c # cs) = q \<or> includes_str cs q)"

section \<open>The task list of \<open>TodoApp\<close>\<close>

text \<open>
  A task as \<open>addTodo\<close> builds it: \<open>{ id, text, done, createdAt }\<close>. The timestamp is the
  result of \<open>Date.now()\<close>, an integral number of milliseconds; numbers that are not
  integers, and the double's loss of precision above \<open>2\<^sup>5\<^sup>3\<close>, are not modelled.
\<close>

record todo =
  todo_id :: jsstring
  todo_text :: jsstring
  todo_done :: bool
  createdAt :: int

text \<open>The keys of the table \<open>FILTERS\<close> and the predicate \<open>fn\<close> stored under each.\<close>

datatype filter_key = Key_all | Key_active | Key_completed

fun FILTERS_label :: "filter_key \<Rightarrow> string" where
  "FILTERS_label Key_all = ''All''"
| "FILTERS_label Key_active = ''Active''"
| "FILTERS_label Key_completed = ''Completed''"

fun FILTERS_fn :: "filter_key \<Rightarrow> todo \<Rightarrow> bool" where
  "FILTERS_fn Key_all t = True"
| "FILTERS_fn Key_active t = (\<not> todo_done t)"
| "FILTERS_fn Key_completed t = todo_done t"

text \<open>
  The state variables of the component \<open>TodoApp\<close>. \<open>editingId\<close> is \<open>null\<close> (here
  \<open>None\<close>) when no task is being edited.
\<close>

record app =
  todos :: "todo list"
  text_st :: jsstring
  filter_st :: filter_key
  search :: jsstring
  editingId :: "jsstring option"
  editingText :: jsstring

text \<open>
  What the program reads from its surroundings when a task is added: the value returned
  by \<open>uid()\<close> and the value returned by \<open>Date.now()\<close>.
\<close>

record env =
  uid :: jsstring
  Date_now :: int

definition addTodo :: "env \<Rightarrow> app \<Rightarrow> app" where
  "addTodo e s =
     (let val = trim (text_st s) in
      if val = [] then s
      else s\<lparr>todos := \<lparr>todo_id = uid e, todo_text = val, todo_done = False,
                         createdAt = Date_now e\<rparr> # todos s,
             text_st := []\<rparr>)"

definition toggle :: "jsstring \<Rightarrow> app \<Rightarrow> app" where
  "toggle i s =
     s\<lparr>todos := map (\<lambda>t. if todo_id t = i then t\<lparr>todo_done := \<not> todo_done t\<rparr> else t)
                    (todos s)\<rparr>"

definition remove :: "jsstring \<Rightarrow> app \<Rightarrow> app" where
  "remove i s = s\<lparr>todos := filter (\<lambda>t. todo_id t \<noteq> i) (todos s)\<rparr>"

definition clearCompleted :: "app \<Rightarrow> app" where
  "clearCompleted s = s\<lparr>todos := filter (\<lambda>t. \<not> todo_done t) (todos s)\<rparr>"

definition startEdit :: "todo \<Rightarrow> app \<Rightarrow> app" where
  "startEdit t s = s\<lparr>editingId := Some (todo_id t), editingText := todo_text t\<rparr>"

text \<open>
  \<open>saveEdit\<close> returns at once when \<open>editingId\<close> is falsy: \<open>null\<close>, but also the empty
  string.
\<close>

definition saveEdit :: "app \<Rightarrow> app" where
  "saveEdit s =
     (let val = trim (editingText s) in
      case editingId s of
        None \<Rightarrow> s
      | Some eid \<Rightarrow>
          if eid = [] then s
          else if val = [] then
            s\<lparr>todos := filter (\<lambda>t. todo_id t \<noteq> eid) (todos s),
              editingId := None, editingText := []\<rparr>
          else
            s\<lparr>todos := map (\<lambda>t. if todo_id t = eid then t\<lparr>todo_text := val\<rparr> else t)
                           (todos s),
              editingId := None, editingText := []\<rparr>)"

definition cancelEdit :: "app \<Rightarrow> app" where
  "cancelEdit s = s\<lparr>editingId := None, editingText := []\<rparr>"

definition toggleAll :: "bool \<Rightarrow> app \<Rightarrow> app" where
  "toggleAll d s = s\<lparr>todos := map (\<lambda>t. t\<lparr>todo_done := d\<rparr>) (todos s)\<rparr>"

text \<open>
  The derived list \<open>filtered\<close>. \<open>String.prototype.toLowerCase\<close> depends on the Unicode
  case tables of the platform; it is the parameter \<open>toLowerCase\<close>.
\<close>

definition filtered :: "(jsstring \<Rightarrow> jsstring) \<Rightarrow> app \<Rightarrow> todo list" where
  "filtered toLowerCase s =
     (let byFilter = filter (FILTERS_fn (filter_st s)) (todos s);
          q = toLowerCase (trim (search s))
      in if q \<noteq> [] then filter (\<lambda>t. includes_str (toLowerCase (todo_text t)) q) byFilter
         else byFilter)"

record stats_rec =
  total :: int
  completed :: int
  active :: int

definition stats :: "app \<Rightarrow> stats_rec" where
  "stats s =
     (let total = int (length (todos s));
          completed = int (length (filter (\<lambda>t. todo_done t) (todos s)));
          active = total - completed
      in \<lparr>total = total, completed = completed, active = active\<rparr>)"

text \<open>
  The operations of the store as the user reaches them: \<open>add\<close> types a text into the input
  box and submits it, \<open>edit\<close> opens the task with the given id for editing, replaces the
  text of the edit box and saves, \<open>filteredView\<close> selects a filter, types a query and
  reads the derived list.
\<close>

definition add :: "env \<Rightarrow> jsstring \<Rightarrow> app \<Rightarrow> app" where
  "add e rawText s = addTodo e (s\<lparr>text_st := rawText\<rparr>)"

definition edit :: "jsstring \<Rightarrow> jsstring \<Rightarrow> app \<Rightarrow> app" where
  "edit i newRawText s = saveEdit (s\<lparr>editingId := Some i, editingText := newRawText\<rparr>)"

definition filteredView ::
    "(jsstring \<Rightarrow> jsstring) \<Rightarrow> filter_key \<Rightarrow> jsstring \<Rightarrow> app \<Rightarrow> todo list" where
  "filteredView toLowerCase f query s = filtered toLowerCase (s\<lparr>filter_st := f, search := query\<rparr>)"

text \<open>
  The initial values of the state variables: \<open>todos\<close> comes from the persisted store,
  the input boxes are empty, the filter is \<open>all\<close> and no task is being edited.
\<close>

definition TodoApp_init :: "todo list \<Rightarrow> app" where
  "TodoApp_init ts =
     \<lparr>todos = ts, text_st = [], filter_st = Key_all, search = [], editingId = None,
      editingText = []\<rparr>"

text \<open>A sequence of \<open>add\<close> calls, each with what \<open>uid()\<close> and \<open>Date.now()\<close> return to it.\<close>

fun add_all :: "(env \<times> jsstring) list \<Rightarrow> app \<Rightarrow> app" where
  "add_all [] s = s"
| "add_all ((e, rawText) # calls) s = add_all calls (add e rawText s)"

text \<open>
  An instance of the parameter \<open>toLowerCase\<close> for concrete runs: the platform function
  on strings of ASCII code units, where it maps \<open>A..Z\<close> to \<open>a..z\<close>.
\<close>

definition toLowerCase_ascii :: "jsstring \<Rightarrow> jsstring" where
  "toLowerCase_ascii s = map (\<lambda>c. if 0x41 \<le> c \<and> c \<le> 0x5A then c + 0x20 else c) s"

section \<open>JSON values and \<open>JSON.parse\<close>\<close>

text \<open>
  The values that \<open>JSON.parse\<close> returns. A number is the exact rational that its
  literal denotes (the rounding to a double is not modelled, and \<open>-0\<close> is \<open>0\<close>); an
  object is the list of its members in the order in which their keys were first seen.
\<close>

datatype json =
    JNull
  | JBool bool
  | JNum rat
  | JStr jsstring
  | JArr "json list"
  | JObj "(jsstring \<times> json) list"

text \<open>
  The grammar of ECMA-404 as \<open>JSON.parse\<close> reads it. Insignificant white space is
  space, tab, line feed and carriage return.
\<close>

definition is_json_ws :: "jschar \<Rightarrow> bool" where
  "is_json_ws c \<longleftrightarrow> c = 0x20 \<or> c = 0x09 \<or> c = 0x0A \<or> c = 0x0D"

definition skip_ws :: "jsstring \<Rightarrow> jsstring" where
  "skip_ws cs = dropWhile is_json_ws cs"

definition is_digit :: "jschar \<Rightarrow> bool" where
  "is_digit c \<longleftrightarrow> 0x30 \<le> c \<and> c \<le> 0x39"

text \<open>
  The body of a string, after the opening quote: up to the closing quote, with the
  two-character escapes (backslash and one of quote, backslash, slash, b, f, n, r, t) and
  the six-character escape (backslash, u and four hexadecimal digits); a control
  character below U+0020 is an error. The result is the string read and the input that
  follows the closing quote; \<open>None\<close> is the \<open>SyntaxError\<close>.
\<close>

definition hex_val :: "jschar \<Rightarrow> jschar option" where
  "hex_val c =
     (if 0x30 \<le> c \<and> c \<le> 0x39 then Some (c - 0x30)
      else if 0x41 \<le> c \<and> c \<le> 0x46 then Some (c - 0x37)
      else if 0x61 \<le> c \<and> c \<le> 0x66 then Some (c - 0x57)
      else None)"

definition hex4_val :: "jschar \<Rightarrow> jschar \<Rightarrow> jschar \<Rightarrow> jschar \<Rightarrow> jschar option" where
  "hex4_val a b c d =
     (case (hex_val a, hex_val b, hex_val c, hex_val d) of
        (Some x, Some y, Some z, Some w) \<Rightarrow> Some (x * 0x1000 + y * 0x100 + z * 0x10 + w)
      | _ \<Rightarrow> None)"

definition unescape :: "jschar \<Rightarrow> jschar option" where
  "unescape e =
     (if e = 0x22 then Some 0x22
      else if e = 0x5C then Some 0x5C
      else if e = 0x2F then Some 0x2F
      else if e = 0x62 then Some 0x08
      else if e = 0x66 then Some 0x0C
      else if e = 0x6E then Some 0x0A
      else if e = 0x72 then Some 0x0D
      else if e = 0x74 then Some 0x09
      else None)"

fun parse_chars :: "jsstring \<Rightarrow> (jsstring \<times> jsstring) option" where
  "parse_chars [] = None"
| "parse_chars (c # cs) =
     (if c = 0x22 then Some ([], cs)
      else if c = 0x5C then
        (case cs of
           [] \<Rightarrow> None
         | e # cs1 \<Rightarrow>
             if e = 0x75 then
               (case cs1 of
                  h1 # h2 # h3 # h4 # cs2 \<Rightarrow>
                    (case hex4_val h1 h2 h3 h4 of
                       None \<Rightarrow> None
                     | Some u \<Rightarrow>
                         (case parse_chars cs2 of
                            None \<Rightarrow> None
                          | Some (s, rest) \<Rightarrow> Some (u # s, rest)))
                | _ \<Rightarrow> None)
             else
               (case unescape e of
                  None \<Rightarrow> None
                | Some u \<Rightarrow>
                    (case parse_chars cs1 of
                       None \<Rightarrow> None
                     | Some (s, rest) \<Rightarrow> Some (u # s, rest))))
      else if c < 0x20 then None
      else
        (case parse_chars cs of
           None \<Rightarrow> None
         | Some (s, rest) \<Rightarrow> Some (c # s, rest)))"

text \<open>
  A number: an optional minus sign, an integer part without leading zeros, an optional
  fraction and an optional exponent. Each part returns what it read and the rest.
\<close>

definition digits_val :: "jsstring \<Rightarrow> int" where
  "digits_val ds = foldl (\<lambda>a d. 10 * a + uint (d - 0x30)) 0 ds"

definition parse_int_part :: "jsstring \<Rightarrow> (jsstring \<times> jsstring) option" where
  "parse_int_part cs =
     (case cs of
        [] \<Rightarrow> None
      | d # r \<Rightarrow>
          if \<not> is_digit d then None
          else if d = 0x30 then Some ([d], r)
          else Some (d # takeWhile is_digit r, dropWhile is_digit r))"

definition parse_frac_part :: "jsstring \<Rightarrow> (jsstring \<times> jsstring) option" where
  "parse_frac_part cs =
     (case cs of
        [] \<Rightarrow> Some ([], cs)
      | p # r \<Rightarrow>
          if p = 0x2E then
            (if takeWhile is_digit r = [] then None
             else Some (takeWhile is_digit r, dropWhile is_digit r))
          else Some ([], cs))"

definition parse_exp_part :: "jsstring \<Rightarrow> (int \<times> jsstring) option" where
  "parse_exp_part cs =
     (case cs of
        [] \<Rightarrow> Some (0, cs)
      | e # r \<Rightarrow>
          if e = 0x65 \<or> e = 0x45 then
            (let (neg, r1) =
               (case r of
                  [] \<Rightarrow> (False, r)
                | sg # r' \<Rightarrow>
                    if sg = 0x2D then (True, r') else if sg = 0x2B then (False, r')
                    else (False, r))
             in if takeWhile is_digit r1 = [] then None
                else Some ((if neg then - digits_val (takeWhile is_digit r1)
                            else digits_val (takeWhile is_digit r1)),
                           dropWhile is_digit r1))
          else Some (0, cs))"

definition pow10 :: "int \<Rightarrow> rat" where
  "pow10 e = (if 0 \<le> e then 10 ^ nat e else 1 / 10 ^ nat (- e))"

definition parse_number :: "jsstring \<Rightarrow> (rat \<times> jsstring) option" where
  "parse_number cs =
     (let (neg, cs1) = (case cs of [] \<Rightarrow> (False, cs)
                        | m # r \<Rightarrow> if m = 0x2D then (True, r) else (False, cs))
      in case parse_int_part cs1 of
           None \<Rightarrow> None
         | Some (ds, cs2) \<Rightarrow>
             (case parse_frac_part cs2 of
                None \<Rightarrow> None
              | Some (fs, cs3) \<Rightarrow>
                  (case parse_exp_part cs3 of
                     None \<Rightarrow> None
                   | Some (ex, cs4) \<Rightarrow>
                       Some ((if neg then - 1 else 1) * of_int (digits_val (ds @ fs))
                               * pow10 (ex - int (length fs)),
                             cs4))))"

text \<open>
  The members of an object are defined one after the other: a key that occurs again
  keeps its place and takes the later value.
\<close>

fun obj_put :: "jsstring \<Rightarrow> json \<Rightarrow> (jsstring \<times> json) list \<Rightarrow> (jsstring \<times> json) list" where
  "obj_put k v [] = [(k, v)]"
| "obj_put k v ((k', v') # ms) = (if k' = k then (k, v) # ms else (k', v') # obj_put k v ms)"

definition obj_of_members :: "(jsstring \<times> json) list \<Rightarrow> (jsstring \<times> json) list" where
  "obj_of_members ms = foldl (\<lambda>acc (k, v). obj_put k v acc) [] ms"

text \<open>
  A value, the elements of an array after \<open>[\<close> and the members of an object after
  \<open>{\<close>. Each returns what it read and the rest of the input. The recursion is on the
  length of the input: a recursive call after a comma is on what a value left over, which
  the test on the lengths records.
\<close>

lemma length_skip_ws [termination_simp]: "length (skip_ws cs) \<le> length cs"
  by (simp add: skip_ws_def length_dropWhile_le)

lemma parse_chars_length:
  "parse_chars cs = Some (s, rest) \<Longrightarrow> length rest < length cs"
proof (induction cs arbitrary: s rest rule: parse_chars.induct)
  case 1
  then show ?case by simp
next
  case (2 c cs)
  then show ?case
    by (fastforce split: if_splits list.splits option.splits)
qed

function parse_value :: "jsstring \<Rightarrow> (json \<times> jsstring) option"
  and parse_elems :: "jsstring \<Rightarrow> (json list \<times> jsstring) option"
  and parse_members :: "jsstring \<Rightarrow> ((jsstring \<times> json) list \<times> jsstring) option"
where
  "parse_value cs =
     (case skip_ws cs of
        [] \<Rightarrow> None
      | c # r \<Rightarrow>
          if c = 0x5B then
            (case skip_ws r of
               [] \<Rightarrow> None
             | d # r1 \<Rightarrow>
                 if d = 0x5D then Some (JArr [], r1)
                 else (case parse_elems r of
                         None \<Rightarrow> None
                       | Some (vs, r2) \<Rightarrow> Some (JArr vs, r2)))
          else if c = 0x7B then
            (case skip_ws r of
               [] \<Rightarrow> None
             | d # r1 \<Rightarrow>
                 if d = 0x7D then Some (JObj [], r1)
                 else (case parse_members r of
                         None \<Rightarrow> None
                       | Some (ms, r2) \<Rightarrow> Some (JObj (obj_of_members ms), r2)))
          else if c = 0x22 then
            (case parse_chars r of
               None \<Rightarrow> None
             | Some (s, r1) \<Rightarrow> Some (JStr s, r1))
          else if take 4 (c # r) = lit ''true'' then Some (JBool True, drop 4 (c # r))
          else if take 5 (c # r) = lit ''false'' then Some (JBool False, drop 5 (c # r))
          else if take 4 (c # r) = lit ''null'' then Some (JNull, drop 4 (c # r))
          else (case parse_number (c # r) of
                  None \<Rightarrow> None
                | Some (x, r1) \<Rightarrow> Some (JNum x, r1)))"
| "parse_elems cs =
     (case parse_value cs of
        None \<Rightarrow> None
      | Some (v, r) \<Rightarrow>
          (case skip_ws r of
             [] \<Rightarrow> None
           | d # r1 \<Rightarrow>
               if d = 0x2C then
                 (if length r1 < length cs then
                    (case parse_elems r1 of
                       None \<Rightarrow> None
                     | Some (vs, r2) \<Rightarrow> Some (v # vs, r2))
                  else None)
               else if d = 0x5D then Some ([v], r1)
               else None))"
| "parse_members cs =
     (case skip_ws cs of
        [] \<Rightarrow> None
      | q # r \<Rightarrow>
          if q = 0x22 then
            (case parse_chars r of
               None \<Rightarrow> None
             | Some (k, r1) \<Rightarrow>
                 (case skip_ws r1 of
                    [] \<Rightarrow> None
                  | col # r2 \<Rightarrow>
                      if col = 0x3A then
                        (case parse_value r2 of
                           None \<Rightarrow> None
                         | Some (v, r3) \<Rightarrow>
                             (case skip_ws r3 of
                                [] \<Rightarrow> None
                              | d # r4 \<Rightarrow>
                                  if d = 0x2C then
                                    (if length r4 < length cs then
                                       (case parse_members r4 of
                                          None \<Rightarrow> None
                                        | Some (ms, r5) \<Rightarrow> Some ((k, v) # ms, r5))
                                     else None)
                                  else if d = 0x7D then Some ([(k, v)], r4)
                                  else None))
                      else None))
          else None)"
  by pat_completeness auto
termination
proof (relation "measure (\<lambda>x. case x of
    Inl cs \<Rightarrow> 2 * length cs
  | Inr (Inl cs) \<Rightarrow> 2 * length cs + 1
  | Inr (Inr cs) \<Rightarrow> 2 * length cs + 1)", goal_cases)
  case 1
  then show ?case by simp
next
  case (2 cs c r d r1)
  have "length (skip_ws cs) \<le> length cs" by (rule length_skip_ws)
  with 2 show ?case by simp
next
  case (3 cs c r d r1)
  have "length (skip_ws cs) \<le> length cs" by (rule length_skip_ws)
  with 3 show ?case by simp
next
  case 4
  then show ?case by simp
next
  case 5
  then show ?case by simp
next
  case (6 cs q r x2 k r1 col r2)
  have "length (skip_ws cs) \<le> length cs" "length (skip_ws r1) \<le> length r1"
    by (rule length_skip_ws)+
  moreover have "length r1 < length r" using 6 by (auto dest: parse_chars_length)
  ultimately show ?case using 6 by simp
next
  case 7
  then show ?case by simp
qed

declare parse_value.simps [simp del] parse_elems.simps [simp del] parse_members.simps [simp del]

text \<open>\<open>JSON.parse\<close>: one value, and nothing but white space after it.\<close>

definition JSON_parse :: "jsstring \<Rightarrow> json option" where
  "JSON_parse s =
     (case parse_value s of
        None \<Rightarrow> None
      | Some (v, r) \<Rightarrow> if skip_ws r = [] then Some v else None)"

section \<open>\<open>JSON.stringify\<close> on a list of tasks\<close>

text \<open>
  \<open>QuoteJSONString\<close>: the string between double quotes, where the quote, the backslash
  and the control characters are escaped (backslash and b, t, n, f or r where there is
  such an escape, otherwise backslash, u and four lower-case hexadecimal digits), a
  surrogate that is not part of a pair is escaped with its four hexadecimal digits, and
  every other code unit stands for itself.
\<close>

definition is_high_surrogate :: "jschar \<Rightarrow> bool" where
  "is_high_surrogate c \<longleftrightarrow> 0xD800 \<le> c \<and> c \<le> 0xDBFF"

definition is_low_surrogate :: "jschar \<Rightarrow> bool" where
  "is_low_surrogate c \<longleftrightarrow> 0xDC00 \<le> c \<and> c \<le> 0xDFFF"

definition hex_digit :: "jschar \<Rightarrow> jschar" where
  "hex_digit n = (if n < 10 then 0x30 + n else 0x57 + n)"

definition unicode_escape :: "jschar \<Rightarrow> jsstring" where
  "unicode_escape c =
     [0x5C, 0x75, hex_digit (c div 0x1000), hex_digit (c div 0x100 mod 0x10),
      hex_digit (c div 0x10 mod 0x10), hex_digit (c mod 0x10)]"

definition escape_unit :: "jschar \<Rightarrow> jsstring" where
  "escape_unit c =
     (if c = 0x08 then [0x5C, 0x62]
      else if c = 0x09 then [0x5C, 0x74]
      else if c = 0x0A then [0x5C, 0x6E]
      else if c = 0x0C then [0x5C, 0x66]
      else if c = 0x0D then [0x5C, 0x72]
      else if c = 0x22 then [0x5C, 0x22]
      else if c = 0x5C then [0x5C, 0x5C]
      else if c < 0x20 \<or> is_high_surrogate c \<or> is_low_surrogate c then unicode_escape c
      else [c])"

fun quote_units :: "jsstring \<Rightarrow> jsstring" where
  "quote_units [] = []"
| "quote_units [c] = escape_unit c"
| "quote_units (c # d # cs) =
     (if is_high_surrogate c \<and> is_low_surrogate d then c # d # quote_units cs
      else escape_unit c @ quote_units (d # cs))"

definition QuoteJSONString :: "jsstring \<Rightarrow> jsstring" where
  "QuoteJSONString s = 0x22 # quote_units s @ [0x22]"

text \<open>
  \<open>Number::toString\<close> on an integral number: its decimal digits, after a minus sign
  when it is negative. (The timestamps of the program are integers far below
  \<open>10\<^sup>2\<^sup>1\<close>, where the platform switches to the exponent notation.)
\<close>

function digits_of :: "int \<Rightarrow> jsstring" where
  "digits_of n =
     (if n < 10 then [0x30 + of_int n]
      else digits_of (n div 10) @ [0x30 + of_int (n mod 10)])"
  by pat_completeness auto
termination
  by (relation "measure nat") auto

declare digits_of.simps [simp del]

definition Number_toString :: "int \<Rightarrow> jsstring" where
  "Number_toString n = (if n < 0 then 0x2D # digits_of (- n) else digits_of n)"

text \<open>
  A task object is written with its properties in the order in which \<open>addTodo\<close>
  creates them, which the object spreads of \<open>toggle\<close>, \<open>saveEdit\<close> and \<open>toggleAll\<close>
  keep; an array is written between brackets with commas, without white space.
\<close>

definition stringify_todo :: "todo \<Rightarrow> jsstring" where
  \<open>stringify_todo t =
     lit ''{"id":'' @ QuoteJSONString (todo_id t) @
     lit '',"text":'' @ QuoteJSONString (todo_text t) @
     lit '',"done":'' @ (if todo_done t then lit ''true'' else lit ''false'') @
     lit '',"createdAt":'' @ Number_toString (createdAt t) @ lit ''}''\<close>

fun stringify_elems :: "todo list \<Rightarrow> jsstring" where
  "stringify_elems [] = []"
| "stringify_elems [t] = stringify_todo t"
| "stringify_elems (t # ts) = stringify_todo t @ 0x2C # stringify_elems ts"

definition JSON_stringify_todos :: "todo list \<Rightarrow> jsstring" where
  "JSON_stringify_todos ts = 0x5B # stringify_elems ts @ [0x5D]"



section \<open>The persisted store and the hook \<open>useLocalStorage\<close>\<close>

text \<open>
  \<open>localStorage\<close>: the stored items, and whether its methods throw (as they do when
  storage is disabled or full). \<open>getItem\<close> returns \<open>null\<close>, here \<open>None\<close>, for a key
  that is absent.
\<close>

datatype 'a outcome = Throws | Returns 'a

record localStorage =
  items :: "jsstring \<rightharpoonup> jsstring"
  getItem_throws :: bool
  setItem_throws :: bool

definition getItem :: "localStorage \<Rightarrow> jsstring \<Rightarrow> jsstring option outcome" where
  "getItem st key = (if getItem_throws st then Throws else Returns (items st key))"


text \<open>
  The initial state of the hook: \<open>raw ? JSON.parse(raw) : initialValue\<close> inside
  \<open>try\<close>, with \<open>initialValue\<close> in the \<open>catch\<close> branch. The effect of the hook, for a
  value that is a list of tasks: \<open>setItem(key, JSON.stringify(value))\<close> inside \<open>try\<close>,
  with an empty \<open>catch\<close> branch.
\<close>

definition useLocalStorage_initial :: "localStorage \<Rightarrow> jsstring \<Rightarrow> json \<Rightarrow> json" where
  "useLocalStorage_initial st key initialValue =
     (case getItem st key of
        Throws \<Rightarrow> initialValue
      | Returns None \<Rightarrow> initialValue
      | Returns (Some raw) \<Rightarrow>
          if raw \<noteq> [] then
            (case JSON_parse raw of None \<Rightarrow> initialValue | Some v \<Rightarrow> v)
          else initialValue)"


text \<open>\<open>TodoApp\<close> uses the hook with the key \<open>todos.v1\<close> and the initial value \<open>[]\<close>.\<close>

definition todos_key :: jsstring where
  "todos_key = lit ''todos.v1''"

definition load :: "localStorage \<Rightarrow> json" where
  "load st = useLocalStorage_initial st todos_key (JArr [])"


section \<open>The specification's vocabulary\<close>

text \<open>The task that a call of \<open>add\<close> with a non-blank text puts in front of the list.\<close>

definition new_todo :: "env \<times> jsstring \<Rightarrow> todo" where
  "new_todo c = \<lparr>todo_id = uid (fst c), todo_text = trim (snd c), todo_done = False,
                  createdAt = Date_now (fst c)\<rparr>"

text \<open>
  The invariants of a task list as the specification states them: ids are pairwise
  distinct, and no text is empty after trimming.
\<close>

definition TaskList_inv :: "todo list \<Rightarrow> bool" where
  "TaskList_inv ts \<longleftrightarrow>
     distinct (map todo_id ts) \<and> list_all (\<lambda>t. trim (todo_text t) \<noteq> []) ts"




text \<open>
  The persistence format in the specification's words: an array of objects, each with
  the fields \<open>id\<close> (string), \<open>text\<close> (string), \<open>done\<close> (boolean) and \<open>createdAt\<close>
  (number).
\<close>

definition has_field :: "(jsstring \<times> json) list \<Rightarrow> string \<Rightarrow> (json \<Rightarrow> bool) \<Rightarrow> bool" where
  "has_field ms name ty = (case map_of ms (lit name) of None \<Rightarrow> False | Some v \<Rightarrow> ty v)"

definition is_task_object :: "json \<Rightarrow> bool" where
  "is_task_object v =
     (case v of
        JObj ms \<Rightarrow>
          has_field ms ''id'' (\<lambda>x. case x of JStr _ \<Rightarrow> True | _ \<Rightarrow> False) \<and>
          has_field ms ''text'' (\<lambda>x. case x of JStr _ \<Rightarrow> True | _ \<Rightarrow> False) \<and>
          has_field ms ''done'' (\<lambda>x. case x of JBool _ \<Rightarrow> True | _ \<Rightarrow> False) \<and>
          has_field ms ''createdAt'' (\<lambda>x. case x of JNum _ \<Rightarrow> True | _ \<Rightarrow> False)
      | _ \<Rightarrow> False)"

definition is_task_array :: "json \<Rightarrow> bool" where
  "is_task_array v = (case v of JArr vs \<Rightarrow> list_all is_task_object vs | _ \<Rightarrow> False)"

section \<open>Facts about \<open>trim\<close> and \<open>includes\<close>\<close>

lemma rev_dropWhile_rev_take:
  "rev (dropWhile P (rev a)) = take (length a - length (takeWhile P (rev a))) a"
  by (simp add: dropWhile_eq_drop rev_drop)

lemma dropWhile_fixed: "xs = [] \<or> \<not> P (hd xs) \<Longrightarrow> dropWhile P xs = xs"
  by (cases xs) auto

lemma trim_head: "trim s = [] \<or> \<not> is_white_space (hd (trim s))"
proof (cases "trim s = []")
  case True
  then show ?thesis by simp
next
  case False
  let ?a = "dropWhile is_white_space s"
  have t: "trim s = take (length ?a - length (takeWhile is_white_space (rev ?a))) ?a"
    by (simp add: trim_def rev_dropWhile_rev_take)
  with False have ne: "?a \<noteq> []" by auto
  from t False have "hd (trim s) = hd ?a"
    by (metis hd_take take_eq_Nil gr0I)
  moreover have "\<not> is_white_space (hd ?a)" using ne by (rule hd_dropWhile)
  ultimately show ?thesis by simp
qed

lemma trim_idem: "trim (trim s) = trim s"
proof -
  have "dropWhile is_white_space (trim s) = trim s"
    using trim_head [of s] by (rule dropWhile_fixed)
  then have "trim (trim s) = rev (dropWhile is_white_space (rev (trim s)))"
    by (simp add: trim_def)
  also have "\<dots> = trim s"
    by (simp add: trim_def)
  finally show ?thesis .
qed


section \<open>What each mutation does to the list\<close>

lemma add_todos:
  "todos (add e rawText s) =
     (if trim rawText = [] then todos s
      else \<lparr>todo_id = uid e, todo_text = trim rawText, todo_done = False,
             createdAt = Date_now e\<rparr> # todos s)"
  by (simp add: add_def addTodo_def Let_def)

lemma add_all_todos:
  "todos (add_all calls s) =
     rev (map new_todo (filter (\<lambda>c. trim (snd c) \<noteq> []) calls)) @ todos s"
  by (induction calls s rule: add_all.induct) (simp_all add: add_todos new_todo_def)

lemma toggle_todos:
  "todos (toggle i s) =
     map (\<lambda>t. if todo_id t = i then t\<lparr>todo_done := \<not> todo_done t\<rparr> else t) (todos s)"
  by (simp add: toggle_def)

lemma remove_todos: "todos (remove i s) = filter (\<lambda>t. todo_id t \<noteq> i) (todos s)"
  by (simp add: remove_def)

lemma toggleAll_todos: "todos (toggleAll d s) = map (\<lambda>t. t\<lparr>todo_done := d\<rparr>) (todos s)"
  by (simp add: toggleAll_def)

lemma edit_todos:
  "todos (edit i newRawText s) =
     (if i = [] then todos s
      else if trim newRawText = [] then filter (\<lambda>t. todo_id t \<noteq> i) (todos s)
      else map (\<lambda>t. if todo_id t = i then t\<lparr>todo_text := trim newRawText\<rparr> else t) (todos s))"
  by (simp add: edit_def saveEdit_def Let_def)

lemma filteredView_eq:
  "filteredView lc f query s =
     (if lc (trim query) \<noteq> []
      then filter (\<lambda>t. FILTERS_fn f t \<and> includes_str (lc (todo_text t)) (lc (trim query)))
             (todos s)
      else filter (FILTERS_fn f) (todos s))"
  by (simp add: filteredView_def filtered_def Let_def conj_commute)

section \<open>Adding tasks\<close>

text \<open>
  Claim C2. \<open>add\<close> trims its argument. When the trimmed text is empty the list is
  unchanged; otherwise the new task, with the id that \<open>uid()\<close> returned, the trimmed
  text, \<open>done = false\<close> and the time that \<open>Date.now()\<close> returned, is put in front of the
  list. After any sequence of calls the list is the old list preceded by the tasks of the
  non-blank calls, the latest first, so from the empty list its length is the number of
  non-blank calls.
\<close>

theorem add_prepends_trimmed_task:
  "(trim rawText = [] \<longrightarrow> todos (add e rawText s) = todos s)
   \<and> (trim rawText \<noteq> [] \<longrightarrow>
        todos (add e rawText s) =
          \<lparr>todo_id = uid e, todo_text = trim rawText, todo_done = False,
            createdAt = Date_now e\<rparr> # todos s)
   \<and> todos (add_all calls s) =
        rev (map new_todo (filter (\<lambda>c. trim (snd c) \<noteq> []) calls)) @ todos s
   \<and> length (todos (add_all calls (TodoApp_init []))) =
        length (filter (\<lambda>c. trim (snd c) \<noteq> []) calls)"
  by (simp add: add_todos add_all_todos TodoApp_init_def)

theorem add_prepends_trimmed_task_witness:
  "trim (lit ''   '') = [] \<and> trim (lit '' Walk dog '') \<noteq> []
   \<and> todos (add \<lparr>uid = lit ''u1'', Date_now = 7\<rparr> (lit ''   '') (TodoApp_init [])) = []
   \<and> todos (add \<lparr>uid = lit ''u2'', Date_now = 8\<rparr> (lit '' Walk dog '') (TodoApp_init [])) =
       [\<lparr>todo_id = lit ''u2'', todo_text = lit ''Walk dog'', todo_done = False,
         createdAt = 8\<rparr>]
   \<and> todos (add_all
        [(\<lparr>uid = lit ''u1'', Date_now = 7\<rparr>, lit ''Buy milk''),
         (\<lparr>uid = lit ''u2'', Date_now = 7\<rparr>, lit ''  ''),
         (\<lparr>uid = lit ''u3'', Date_now = 9\<rparr>, lit ''Walk dog'')] (TodoApp_init [])) =
       [\<lparr>todo_id = lit ''u3'', todo_text = lit ''Walk dog'', todo_done = False,
         createdAt = 9\<rparr>,
        \<lparr>todo_id = lit ''u1'', todo_text = lit ''Buy milk'', todo_done = False,
         createdAt = 7\<rparr>]"
  using
    add_prepends_trimmed_task [of "lit ''   ''" "\<lparr>uid = lit ''u1'', Date_now = 7\<rparr>"
      "TodoApp_init []" "[]"]
    add_prepends_trimmed_task [of "lit '' Walk dog ''" "\<lparr>uid = lit ''u2'', Date_now = 8\<rparr>"
      "TodoApp_init []"
      "[(\<lparr>uid = lit ''u1'', Date_now = 7\<rparr>, lit ''Buy milk''),
        (\<lparr>uid = lit ''u2'', Date_now = 7\<rparr>, lit ''  ''),
        (\<lparr>uid = lit ''u3'', Date_now = 9\<rparr>, lit ''Walk dog'')]"]
  by (simp add: trim_def lit_def is_white_space_def TodoApp_init_def new_todo_def)

section \<open>Editing a task\<close>

lemma map_text_absent:
  "i \<notin> todo_id ` set xs \<Longrightarrow>
     map (\<lambda>t. if todo_id t = i then t\<lparr>todo_text := v\<rparr> else t) xs = xs"
  by (induction xs) auto

lemma filter_absent: "i \<notin> todo_id ` set xs \<Longrightarrow> filter (\<lambda>t. todo_id t \<noteq> i) xs = xs"
  by (induction xs) auto

lemma edit_absent: "i \<notin> todo_id ` set (todos s) \<Longrightarrow> todos (edit i newRawText s) = todos s"
  by (simp add: edit_todos map_text_absent filter_absent)

lemma map_text_keeps:
  "map (\<lambda>t. (todo_id t, todo_done t, createdAt t))
       (map (\<lambda>t. if todo_id t = i then t\<lparr>todo_text := v\<rparr> else t) xs) =
   map (\<lambda>t. (todo_id t, todo_done t, createdAt t)) xs"
  by (induction xs) auto

text \<open>
  Claim C3, as the code has it. \<open>saveEdit\<close> returns at once when the id being edited is
  the empty string, so the claim holds for every id but the empty one: with a non-empty
  id, a text that is empty after trimming removes the tasks of that id exactly as
  \<open>remove\<close> does, and any other text replaces \<open>text\<close> by the trimmed text on the tasks
  of that id, whose \<open>id\<close>, \<open>done\<close> and \<open>createdAt\<close> stay as they were. When no task has
  the id the list is unchanged. With the empty id the list is unchanged.
\<close>

theorem edit_trims_then_removes_or_replaces:
  "(i \<noteq> [] \<and> trim newRawText = [] \<longrightarrow> todos (edit i newRawText s) = todos (remove i s))
   \<and> (i \<noteq> [] \<and> trim newRawText \<noteq> [] \<longrightarrow>
        todos (edit i newRawText s) =
          map (\<lambda>t. if todo_id t = i then t\<lparr>todo_text := trim newRawText\<rparr> else t) (todos s)
        \<and> map (\<lambda>t. (todo_id t, todo_done t, createdAt t)) (todos (edit i newRawText s)) =
          map (\<lambda>t. (todo_id t, todo_done t, createdAt t)) (todos s))
   \<and> (i \<notin> todo_id ` set (todos s) \<longrightarrow> todos (edit i newRawText s) = todos s)
   \<and> todos (edit [] newRawText s) = todos s"
  by (simp add: edit_absent) (simp add: edit_todos remove_todos map_text_keeps)

theorem edit_trims_then_removes_or_replaces_witness:
  "lit ''a'' \<noteq> [] \<and> trim (lit ''  '') = [] \<and> trim (lit '' Buy tea '') \<noteq> []
   \<and> lit ''b'' \<notin> todo_id ` set (todos (TodoApp_init
        [\<lparr>todo_id = lit ''a'', todo_text = lit ''Task'', todo_done = True, createdAt = 3\<rparr>]))
   \<and> todos (edit (lit ''a'') (lit ''  '') (TodoApp_init
        [\<lparr>todo_id = lit ''a'', todo_text = lit ''Task'', todo_done = True, createdAt = 3\<rparr>]))
       = []
   \<and> todos (edit (lit ''a'') (lit '' Buy tea '') (TodoApp_init
        [\<lparr>todo_id = lit ''a'', todo_text = lit ''Task'', todo_done = True, createdAt = 3\<rparr>]))
       = [\<lparr>todo_id = lit ''a'', todo_text = lit ''Buy tea'', todo_done = True, createdAt = 3\<rparr>]
   \<and> todos (edit (lit ''b'') (lit '' Buy tea '') (TodoApp_init
        [\<lparr>todo_id = lit ''a'', todo_text = lit ''Task'', todo_done = True, createdAt = 3\<rparr>]))
       = [\<lparr>todo_id = lit ''a'', todo_text = lit ''Task'', todo_done = True, createdAt = 3\<rparr>]"
  using
    edit_trims_then_removes_or_replaces [of "lit ''a''" "lit ''  ''" "TodoApp_init
        [\<lparr>todo_id = lit ''a'', todo_text = lit ''Task'', todo_done = True, createdAt = 3\<rparr>]"]
    edit_trims_then_removes_or_replaces [of "lit ''a''" "lit '' Buy tea ''" "TodoApp_init
        [\<lparr>todo_id = lit ''a'', todo_text = lit ''Task'', todo_done = True, createdAt = 3\<rparr>]"]
    edit_trims_then_removes_or_replaces [of "lit ''b''" "lit '' Buy tea ''" "TodoApp_init
        [\<lparr>todo_id = lit ''a'', todo_text = lit ''Task'', todo_done = True, createdAt = 3\<rparr>]"]
  by (simp add: trim_def lit_def is_white_space_def TodoApp_init_def remove_def)

text \<open>
  The claim as stated fails at the empty id: a task whose id is the empty string is
  removed by \<open>remove\<close> and kept by \<open>edit\<close> with an empty text.
\<close>

theorem edit_empty_id_counterexample:
  "todos (edit [] []
      (TodoApp_init [\<lparr>todo_id = [], todo_text = lit ''a'', todo_done = False, createdAt = 1\<rparr>]))
   \<noteq> todos (remove []
      (TodoApp_init [\<lparr>todo_id = [], todo_text = lit ''a'', todo_done = False, createdAt = 1\<rparr>]))"
  by (simp add: edit_def saveEdit_def remove_def TodoApp_init_def Let_def)

section \<open>The invariants of the task list\<close>

lemma inv_map:
  assumes "TaskList_inv xs"
    and "\<And>t. todo_id (f t) = todo_id t"
    and "\<And>t. trim (todo_text t) \<noteq> [] \<Longrightarrow> trim (todo_text (f t)) \<noteq> []"
  shows "TaskList_inv (map f xs)"
proof -
  have ids: "map todo_id (map f xs) = map todo_id xs"
    using assms(2) by (induction xs) simp_all
  have "distinct (map todo_id (map f xs))"
    unfolding ids using assms(1) by (simp add: TaskList_inv_def)
  moreover have "list_all (\<lambda>t. trim (todo_text t) \<noteq> []) (map f xs)"
    using assms(1,3) by (induction xs) (simp_all add: TaskList_inv_def)
  ultimately show ?thesis
    unfolding TaskList_inv_def by blast
qed

lemma inv_filter: "TaskList_inv xs \<Longrightarrow> TaskList_inv (filter P xs)"
  by (simp add: TaskList_inv_def distinct_map_filter list_all_iff)

lemma inv_toggle: "TaskList_inv (todos s) \<Longrightarrow> TaskList_inv (todos (toggle i s))"
  unfolding toggle_todos by (rule inv_map) simp_all

lemma inv_toggleAll: "TaskList_inv (todos s) \<Longrightarrow> TaskList_inv (todos (toggleAll d s))"
  unfolding toggleAll_todos by (rule inv_map) simp_all

lemma inv_remove: "TaskList_inv (todos s) \<Longrightarrow> TaskList_inv (todos (remove i s))"
  by (simp add: remove_def inv_filter)

lemma inv_clearCompleted: "TaskList_inv (todos s) \<Longrightarrow> TaskList_inv (todos (clearCompleted s))"
  by (simp add: clearCompleted_def inv_filter)

lemma inv_add:
  "TaskList_inv (todos s) \<Longrightarrow> uid e \<notin> set (map todo_id (todos s)) \<Longrightarrow>
     TaskList_inv (todos (add e rawText s))"
  by (auto simp: TaskList_inv_def add_def addTodo_def Let_def trim_idem)

lemma inv_edit: "TaskList_inv (todos s) \<Longrightarrow> TaskList_inv (todos (edit i newRawText s))"
proof -
  assume a: "TaskList_inv (todos s)"
  have "TaskList_inv
      (map (\<lambda>t. if todo_id t = i then t\<lparr>todo_text := trim newRawText\<rparr> else t) (todos s))"
    if "trim newRawText \<noteq> []"
    using a by (rule inv_map) (simp_all add: trim_idem that)
  then show ?thesis
    using a by (simp add: edit_todos inv_filter)
qed

text \<open>
  Claim C4. From a list whose ids are pairwise distinct and whose texts are all non-empty
  after trimming, each of \<open>add\<close> (given an id from \<open>uid()\<close> that is not in the list),
  \<open>toggle\<close>, \<open>remove\<close>, \<open>edit\<close>, \<open>clearCompleted\<close> and \<open>toggleAll\<close> gives a list with
  the same two properties.
\<close>

theorem mutations_preserve_TaskList_inv:
  "TaskList_inv (todos s) \<Longrightarrow>
     (uid e \<notin> set (map todo_id (todos s)) \<longrightarrow> TaskList_inv (todos (add e rawText s)))
     \<and> TaskList_inv (todos (toggle i s))
     \<and> TaskList_inv (todos (remove i s))
     \<and> TaskList_inv (todos (edit i newRawText s))
     \<and> TaskList_inv (todos (clearCompleted s))
     \<and> TaskList_inv (todos (toggleAll d s))"
  by (simp add: inv_add inv_toggle inv_remove inv_edit inv_clearCompleted inv_toggleAll)

theorem mutations_preserve_TaskList_inv_witness:
  "TaskList_inv (todos (TodoApp_init
      [\<lparr>todo_id = lit ''a'', todo_text = lit ''Task'', todo_done = True, createdAt = 3\<rparr>]))
   \<and> uid \<lparr>uid = lit ''b'', Date_now = 4\<rparr> \<notin> set (map todo_id (todos (TodoApp_init
      [\<lparr>todo_id = lit ''a'', todo_text = lit ''Task'', todo_done = True, createdAt = 3\<rparr>])))
   \<and> TaskList_inv (todos (add \<lparr>uid = lit ''b'', Date_now = 4\<rparr> (lit '' Walk dog '')
      (TodoApp_init
        [\<lparr>todo_id = lit ''a'', todo_text = lit ''Task'', todo_done = True, createdAt = 3\<rparr>])))
   \<and> TaskList_inv (todos (edit (lit ''a'') (lit '' Buy tea '') (TodoApp_init
      [\<lparr>todo_id = lit ''a'', todo_text = lit ''Task'', todo_done = True, createdAt = 3\<rparr>])))"
proof -
  have h: "TaskList_inv (todos (TodoApp_init
      [\<lparr>todo_id = lit ''a'', todo_text = lit ''Task'', todo_done = True, createdAt = 3\<rparr>]))"
    by (simp add: TaskList_inv_def TodoApp_init_def trim_def lit_def is_white_space_def)
  show ?thesis
    using h mutations_preserve_TaskList_inv [OF h, of "\<lparr>uid = lit ''b'', Date_now = 4\<rparr>"
      "lit '' Walk dog ''" "lit ''a''" "lit '' Buy tea ''" True]
    by (simp add: TodoApp_init_def lit_def)
qed

section \<open>The filtered view\<close>




lemma filteredView_empty_query:
  "lc [] = [] \<Longrightarrow> filteredView lc f [] s = filter (FILTERS_fn f) (todos s)"
  by (simp add: filteredView_eq trim_def)



lemma ids_partition:
  "distinct (map todo_id xs) \<Longrightarrow>
     set (map todo_id (filter (\<lambda>t. \<not> todo_done t) xs)) \<inter>
     set (map todo_id (filter (\<lambda>t. todo_done t) xs)) = {}"
  by (induction xs) auto

lemma ids_cover:
  "set (map todo_id (filter (\<lambda>t. \<not> todo_done t) xs)) \<union>
   set (map todo_id (filter (\<lambda>t. todo_done t) xs)) = set (map todo_id xs)"
  by (induction xs) auto

text \<open>
  Claim C8, as the code has it. With the empty query, the ids of the view Active and the
  ids of the view Completed together are the ids of the list, for every list; the two
  sets of ids are disjoint when the ids of the list are pairwise distinct (the invariant
  of a task list, which the program does not enforce on what it loads).
\<close>

theorem active_completed_partition_ids:
  "toLowerCase [] = [] \<Longrightarrow>
     set (map todo_id (filteredView toLowerCase Key_active [] s)) \<union>
     set (map todo_id (filteredView toLowerCase Key_completed [] s)) =
     set (map todo_id (todos s))
     \<and> (distinct (map todo_id (todos s)) \<longrightarrow>
          set (map todo_id (filteredView toLowerCase Key_active [] s)) \<inter>
          set (map todo_id (filteredView toLowerCase Key_completed [] s)) = {})"
proof -
  assume lc: "toLowerCase [] = []"
  have a: "filteredView toLowerCase Key_active [] s = filter (\<lambda>t. \<not> todo_done t) (todos s)"
    using lc filteredView_empty_query [of toLowerCase Key_active s]
    by (simp cong: filter_cong)
  have c: "filteredView toLowerCase Key_completed [] s = filter (\<lambda>t. todo_done t) (todos s)"
    using lc filteredView_empty_query [of toLowerCase Key_completed s]
    by (simp cong: filter_cong)
  show ?thesis
    unfolding a c using ids_partition [of "todos s"] ids_cover [of "todos s"] by blast
qed

theorem active_completed_partition_ids_witness:
  "toLowerCase_ascii [] = []
   \<and> distinct (map todo_id (todos (TodoApp_init
       [\<lparr>todo_id = lit ''b'', todo_text = lit ''Walk dog'', todo_done = False, createdAt = 9\<rparr>,
        \<lparr>todo_id = lit ''a'', todo_text = lit ''Buy milk'', todo_done = True, createdAt = 7\<rparr>])))
   \<and> set (map todo_id (filteredView toLowerCase_ascii Key_active [] (TodoApp_init
       [\<lparr>todo_id = lit ''b'', todo_text = lit ''Walk dog'', todo_done = False, createdAt = 9\<rparr>,
        \<lparr>todo_id = lit ''a'', todo_text = lit ''Buy milk'', todo_done = True, createdAt = 7\<rparr>])))
     \<union> set (map todo_id (filteredView toLowerCase_ascii Key_completed [] (TodoApp_init
       [\<lparr>todo_id = lit ''b'', todo_text = lit ''Walk dog'', todo_done = False, createdAt = 9\<rparr>,
        \<lparr>todo_id = lit ''a'', todo_text = lit ''Buy milk'', todo_done = True, createdAt = 7\<rparr>])))
     = {lit ''a'', lit ''b''}
   \<and> set (map todo_id (filteredView toLowerCase_ascii Key_active [] (TodoApp_init
       [\<lparr>todo_id = lit ''b'', todo_text = lit ''Walk dog'', todo_done = False, createdAt = 9\<rparr>,
        \<lparr>todo_id = lit ''a'', todo_text = lit ''Buy milk'', todo_done = True, createdAt = 7\<rparr>])))
     \<inter> set (map todo_id (filteredView toLowerCase_ascii Key_completed [] (TodoApp_init
       [\<lparr>todo_id = lit ''b'', todo_text = lit ''Walk dog'', todo_done = False, createdAt = 9\<rparr>,
        \<lparr>todo_id = lit ''a'', todo_text = lit ''Buy milk'', todo_done = True, createdAt = 7\<rparr>])))
     = {}"
proof -
  let ?s = "TodoApp_init
       [\<lparr>todo_id = lit ''b'', todo_text = lit ''Walk dog'', todo_done = False, createdAt = 9\<rparr>,
        \<lparr>todo_id = lit ''a'', todo_text = lit ''Buy milk'', todo_done = True, createdAt = 7\<rparr>]"
  have h: "toLowerCase_ascii [] = []" by (simp add: toLowerCase_ascii_def)
  have d: "distinct (map todo_id (todos ?s))"
    by (simp add: TodoApp_init_def lit_def)
  have ids: "set (map todo_id (todos ?s)) = {lit ''a'', lit ''b''}"
    by (auto simp: TodoApp_init_def)
  show ?thesis
    using h d active_completed_partition_ids [of toLowerCase_ascii ?s]
    unfolding ids by blast
qed

text \<open>
  The claim as stated fails on a list in which two tasks share an id, one of them done:
  the id is in both views.
\<close>

theorem shared_id_in_both_views_counterexample:
  "set (map todo_id (filteredView toLowerCase_ascii Key_active [] (TodoApp_init
       [\<lparr>todo_id = lit ''a'', todo_text = lit ''Walk dog'', todo_done = False, createdAt = 9\<rparr>,
        \<lparr>todo_id = lit ''a'', todo_text = lit ''Buy milk'', todo_done = True, createdAt = 7\<rparr>])))
     \<inter> set (map todo_id (filteredView toLowerCase_ascii Key_completed [] (TodoApp_init
       [\<lparr>todo_id = lit ''a'', todo_text = lit ''Walk dog'', todo_done = False, createdAt = 9\<rparr>,
        \<lparr>todo_id = lit ''a'', todo_text = lit ''Buy milk'', todo_done = True, createdAt = 7\<rparr>])))
     = {lit ''a''}
   \<and> {lit ''a''} \<noteq> ({} :: jsstring set)"
  by (simp add: filteredView_def filtered_def Let_def TodoApp_init_def toLowerCase_ascii_def
      trim_def)

section \<open>Toggling\<close>

lemma map_toggle_absent:
  "i \<notin> todo_id ` set xs \<Longrightarrow>
     map (\<lambda>t. if todo_id t = i then t\<lparr>todo_done := \<not> todo_done t\<rparr> else t) xs = xs"
  by (induction xs) auto

lemma toggle_absent: "i \<notin> todo_id ` set (todos s) \<Longrightarrow> toggle i s = s"
  by (simp add: toggle_def map_toggle_absent)

lemma toggle_twice: "toggle i (toggle i s) = s"
  by (simp add: toggle_def o_def if_distrib cong: if_cong)

text \<open>
  Claim C7. \<open>toggle i\<close> flips \<open>done\<close> on the tasks whose id is \<open>i\<close> and leaves every
  other task and every other field as it was; when no task has the id the state is
  unchanged; toggling the same id twice gives the original state back.
\<close>

theorem toggle_flips_matching_done:
  "todos (toggle i s) =
     map (\<lambda>t. if todo_id t = i then t\<lparr>todo_done := \<not> todo_done t\<rparr> else t) (todos s)
   \<and> (i \<notin> todo_id ` set (todos s) \<longrightarrow> toggle i s = s)
   \<and> toggle i (toggle i s) = s"
  by (simp add: toggle_todos toggle_absent toggle_twice)

theorem toggle_flips_matching_done_witness:
  "lit ''b'' \<notin> todo_id ` set (todos (TodoApp_init
       [\<lparr>todo_id = lit ''a'', todo_text = lit ''Buy milk'', todo_done = False, createdAt = 5\<rparr>]))
   \<and> toggle (lit ''b'') (TodoApp_init
       [\<lparr>todo_id = lit ''a'', todo_text = lit ''Buy milk'', todo_done = False, createdAt = 5\<rparr>])
     = TodoApp_init
       [\<lparr>todo_id = lit ''a'', todo_text = lit ''Buy milk'', todo_done = False, createdAt = 5\<rparr>]"
  using toggle_flips_matching_done [of "lit ''b''" "TodoApp_init
       [\<lparr>todo_id = lit ''a'', todo_text = lit ''Buy milk'', todo_done = False, createdAt = 5\<rparr>]"]
  by (simp add: TodoApp_init_def lit_def)

lemma filter_done_after_set:
  "filter (\<lambda>t. todo_done t) (map (\<lambda>t. t\<lparr>todo_done := d\<rparr>) xs) =
     (if d then map (\<lambda>t. t\<lparr>todo_done := d\<rparr>) xs else [])"
  by (induction xs) auto

lemma stats_toggleAll_True: "active (stats (toggleAll True s)) = 0"
  by (simp add: stats_def Let_def toggleAll_todos filter_done_after_set)

lemma stats_toggleAll_False: "completed (stats (toggleAll False s)) = 0"
  by (simp add: stats_def Let_def toggleAll_todos filter_done_after_set)

text \<open>
  Claim C6. \<open>toggleAll b\<close> sets \<open>done\<close> to \<open>b\<close> on every task, whatever its value was;
  after \<open>toggleAll true\<close> the count of active tasks is 0, and after \<open>toggleAll false\<close>
  the count of completed tasks is 0.
\<close>

theorem toggleAll_sets_every_done:
  "todos (toggleAll b s) = map (\<lambda>t. t\<lparr>todo_done := b\<rparr>) (todos s)
   \<and> list_all (\<lambda>t. todo_done t = b) (todos (toggleAll b s))
   \<and> active (stats (toggleAll True s)) = 0
   \<and> completed (stats (toggleAll False s)) = 0"
  by (simp add: toggleAll_todos stats_toggleAll_True stats_toggleAll_False list_all_iff)

section \<open>The frame of the id-keyed mutations\<close>

lemma frame_map:
  "(\<And>t. todo_id (f t) = todo_id t) \<Longrightarrow>
   filter (\<lambda>t. todo_id t \<noteq> i) (map (\<lambda>t. if todo_id t = i then f t else t) xs) =
   filter (\<lambda>t. todo_id t \<noteq> i) xs"
  by (induction xs) auto

lemma hit_map:
  "(\<And>t. todo_id (f t) = todo_id t) \<Longrightarrow>
   filter (\<lambda>t. todo_id t = i) (map (\<lambda>t. if todo_id t = i then f t else t) xs) =
   map f (filter (\<lambda>t. todo_id t = i) xs)"
  by (induction xs) auto

lemma toggle_keeps:
  "map (\<lambda>t. (todo_id t, todo_text t, createdAt t))
       (map (\<lambda>t. if todo_id t = i then t\<lparr>todo_done := \<not> todo_done t\<rparr> else t) xs) =
   map (\<lambda>t. (todo_id t, todo_text t, createdAt t)) xs"
  by (induction xs) auto

lemma toggle_frame:
  "filter (\<lambda>t. todo_id t \<noteq> i) (todos (toggle i s)) = filter (\<lambda>t. todo_id t \<noteq> i) (todos s)"
  unfolding toggle_todos by (rule frame_map) simp

lemma toggle_hit:
  "filter (\<lambda>t. todo_id t = i) (todos (toggle i s)) =
     map (\<lambda>t. t\<lparr>todo_done := \<not> todo_done t\<rparr>) (filter (\<lambda>t. todo_id t = i) (todos s))"
  unfolding toggle_todos by (rule hit_map) simp

lemma remove_frame:
  "filter (\<lambda>t. todo_id t \<noteq> i) (todos (remove i s)) = filter (\<lambda>t. todo_id t \<noteq> i) (todos s)"
  by (simp add: remove_todos)

lemma remove_hit: "filter (\<lambda>t. todo_id t = i) (todos (remove i s)) = []"
  by (simp add: remove_todos)

lemma edit_frame:
  "filter (\<lambda>t. todo_id t \<noteq> i) (todos (edit i newRawText s)) =
     filter (\<lambda>t. todo_id t \<noteq> i) (todos s)"
proof -
  have "filter (\<lambda>t. todo_id t \<noteq> i)
          (map (\<lambda>t. if todo_id t = i then t\<lparr>todo_text := v\<rparr> else t) (todos s)) =
        filter (\<lambda>t. todo_id t \<noteq> i) (todos s)" for v
    by (rule frame_map) simp
  then show ?thesis by (simp add: edit_todos)
qed

lemma edit_hit:
  "i \<noteq> [] \<Longrightarrow>
   filter (\<lambda>t. todo_id t = i) (todos (edit i newRawText s)) =
     (if trim newRawText = [] then []
      else map (\<lambda>t. t\<lparr>todo_text := trim newRawText\<rparr>) (filter (\<lambda>t. todo_id t = i) (todos s)))"
proof -
  assume ne: "i \<noteq> []"
  have "filter (\<lambda>t. todo_id t = i)
          (map (\<lambda>t. if todo_id t = i then t\<lparr>todo_text := v\<rparr> else t) (todos s)) =
        map (\<lambda>t. t\<lparr>todo_text := v\<rparr>) (filter (\<lambda>t. todo_id t = i) (todos s))" for v
    by (rule hit_map) simp
  then show ?thesis using ne by (simp add: edit_todos)
qed

text \<open>
  Claim C10, as the code has it. The tasks whose id differs from the given id come out
  of \<open>toggle\<close>, \<open>remove\<close> and \<open>edit\<close> unchanged and in their order. Of the tasks whose
  id is the given id, \<open>toggle\<close> flips \<open>done\<close> on each and changes no other field of any
  task, \<open>remove\<close> deletes each, and \<open>edit\<close> with a non-empty id deletes each when the
  trimmed text is empty and otherwise sets the text of each to the trimmed text; when
  the trimmed text is not empty, \<open>edit\<close> leaves the \<open>id\<close>, \<open>done\<close> and \<open>createdAt\<close> of
  every task, position by position, as they were. With the empty id \<open>edit\<close> changes no
  task.
\<close>

theorem id_keyed_mutations_frame:
  "filter (\<lambda>t. todo_id t \<noteq> i) (todos (toggle i s)) = filter (\<lambda>t. todo_id t \<noteq> i) (todos s)
   \<and> filter (\<lambda>t. todo_id t \<noteq> i) (todos (remove i s)) = filter (\<lambda>t. todo_id t \<noteq> i) (todos s)
   \<and> filter (\<lambda>t. todo_id t \<noteq> i) (todos (edit i newRawText s)) =
       filter (\<lambda>t. todo_id t \<noteq> i) (todos s)
   \<and> filter (\<lambda>t. todo_id t = i) (todos (toggle i s)) =
       map (\<lambda>t. t\<lparr>todo_done := \<not> todo_done t\<rparr>) (filter (\<lambda>t. todo_id t = i) (todos s))
   \<and> map (\<lambda>t. (todo_id t, todo_text t, createdAt t)) (todos (toggle i s)) =
       map (\<lambda>t. (todo_id t, todo_text t, createdAt t)) (todos s)
   \<and> filter (\<lambda>t. todo_id t = i) (todos (remove i s)) = []
   \<and> (i \<noteq> [] \<longrightarrow>
        filter (\<lambda>t. todo_id t = i) (todos (edit i newRawText s)) =
          (if trim newRawText = [] then []
           else map (\<lambda>t. t\<lparr>todo_text := trim newRawText\<rparr>)
                  (filter (\<lambda>t. todo_id t = i) (todos s))))
   \<and> (trim newRawText \<noteq> [] \<longrightarrow>
        map (\<lambda>t. (todo_id t, todo_done t, createdAt t)) (todos (edit i newRawText s)) =
        map (\<lambda>t. (todo_id t, todo_done t, createdAt t)) (todos s))
   \<and> todos (edit [] newRawText s) = todos s"
  using toggle_frame [of i s] remove_frame [of i s] edit_frame [of i newRawText s]
    toggle_hit [of i s] remove_hit [of i s] edit_hit [of i newRawText s]
  by (simp add: toggle_todos toggle_keeps edit_todos map_text_keeps)

theorem id_keyed_mutations_frame_witness:
  "lit ''a'' \<noteq> [] \<and> trim (lit '' Tea '') \<noteq> []
   \<and> map (\<lambda>t. (todo_id t, todo_done t, createdAt t))
       (todos (edit (lit ''a'') (lit '' Tea '') (TodoApp_init
       [\<lparr>todo_id = lit ''a'', todo_text = lit ''Task'', todo_done = True, createdAt = 3\<rparr>,
        \<lparr>todo_id = lit ''b'', todo_text = lit ''Walk'', todo_done = False, createdAt = 2\<rparr>,
        \<lparr>todo_id = lit ''a'', todo_text = lit ''Twin'', todo_done = False, createdAt = 1\<rparr>])))
     = [(lit ''a'', True, 3), (lit ''b'', False, 2), (lit ''a'', False, 1)]
   \<and> filter (\<lambda>t. todo_id t = lit ''a'') (todos (edit (lit ''a'') (lit '' Tea '') (TodoApp_init
       [\<lparr>todo_id = lit ''a'', todo_text = lit ''Task'', todo_done = True, createdAt = 3\<rparr>,
        \<lparr>todo_id = lit ''b'', todo_text = lit ''Walk'', todo_done = False, createdAt = 2\<rparr>,
        \<lparr>todo_id = lit ''a'', todo_text = lit ''Twin'', todo_done = False, createdAt = 1\<rparr>])))
     = [\<lparr>todo_id = lit ''a'', todo_text = lit ''Tea'', todo_done = True, createdAt = 3\<rparr>,
        \<lparr>todo_id = lit ''a'', todo_text = lit ''Tea'', todo_done = False, createdAt = 1\<rparr>]"
  using id_keyed_mutations_frame [of "lit ''a''" "TodoApp_init
       [\<lparr>todo_id = lit ''a'', todo_text = lit ''Task'', todo_done = True, createdAt = 3\<rparr>,
        \<lparr>todo_id = lit ''b'', todo_text = lit ''Walk'', todo_done = False, createdAt = 2\<rparr>,
        \<lparr>todo_id = lit ''a'', todo_text = lit ''Twin'', todo_done = False, createdAt = 1\<rparr>]"
      "lit '' Tea ''"]
  by (simp add: TodoApp_init_def lit_def trim_def is_white_space_def)

text \<open>
  The claim as stated fails at the empty id: the task whose id is the empty string is the
  one the claim says \<open>edit\<close> modifies, and \<open>edit\<close> leaves it as it was.
\<close>

theorem edit_empty_id_not_modified_counterexample:
  "todos (edit [] (lit ''x'')
      (TodoApp_init [\<lparr>todo_id = [], todo_text = lit ''a'', todo_done = False, createdAt = 1\<rparr>]))
     = [\<lparr>todo_id = [], todo_text = lit ''a'', todo_done = False, createdAt = 1\<rparr>]
   \<and> todos (edit [] (lit ''x'')
      (TodoApp_init [\<lparr>todo_id = [], todo_text = lit ''a'', todo_done = False, createdAt = 1\<rparr>]))
     \<noteq> [\<lparr>todo_id = [], todo_text = lit ''x'', todo_done = False, createdAt = 1\<rparr>]"
  by (simp add: edit_def saveEdit_def TodoApp_init_def Let_def lit_def)

section \<open>Two runs of the store\<close>

text \<open>
  From the empty list: adding Buy milk and then Walk dog gives the list Walk dog, Buy
  milk; after toggling Buy milk the view Completed is Buy milk alone and the counters
  are 2 in total, 1 completed, 1 active. And a task whose text is edited to blanks is
  gone.
\<close>

lemma scenario_buy_milk:
  "todos (add \<lparr>uid = lit ''u2'', Date_now = 2\<rparr> (lit ''Walk dog'')
     (add \<lparr>uid = lit ''u1'', Date_now = 1\<rparr> (lit ''Buy milk'') (TodoApp_init []))) =
     [\<lparr>todo_id = lit ''u2'', todo_text = lit ''Walk dog'', todo_done = False, createdAt = 2\<rparr>,
      \<lparr>todo_id = lit ''u1'', todo_text = lit ''Buy milk'', todo_done = False, createdAt = 1\<rparr>]"
  "filteredView toLowerCase_ascii Key_completed []
     (toggle (lit ''u1'')
       (add \<lparr>uid = lit ''u2'', Date_now = 2\<rparr> (lit ''Walk dog'')
         (add \<lparr>uid = lit ''u1'', Date_now = 1\<rparr> (lit ''Buy milk'') (TodoApp_init [])))) =
     [\<lparr>todo_id = lit ''u1'', todo_text = lit ''Buy milk'', todo_done = True, createdAt = 1\<rparr>]"
  "stats
     (toggle (lit ''u1'')
       (add \<lparr>uid = lit ''u2'', Date_now = 2\<rparr> (lit ''Walk dog'')
         (add \<lparr>uid = lit ''u1'', Date_now = 1\<rparr> (lit ''Buy milk'') (TodoApp_init [])))) =
     \<lparr>total = 2, completed = 1, active = 1\<rparr>"
  by (simp_all add: add_def addTodo_def toggle_def filteredView_def filtered_def stats_def
      TodoApp_init_def toLowerCase_ascii_def trim_def is_white_space_def lit_def Let_def)

lemma scenario_edit_to_blank:
  "todos (edit (lit ''u1'') (lit ''   '')
     (add \<lparr>uid = lit ''u1'', Date_now = 1\<rparr> (lit ''Task'') (TodoApp_init []))) = []"
  by (simp add: add_def addTodo_def edit_def saveEdit_def TodoApp_init_def trim_def
      is_white_space_def lit_def Let_def)

section \<open>The parser consumes its input\<close>

text \<open>
  Whatever a value, a list of elements or a list of members is read from, what is left
  over is shorter. So the tests on the lengths in \<open>parse_elems\<close> and \<open>parse_members\<close>
  never fail, and the two functions satisfy the equations of the recursive descent
  without them.
\<close>

lemma parse_int_part_length:
  "parse_int_part cs = Some (ds, r) \<Longrightarrow> length r < length cs"
  by (auto simp: parse_int_part_def less_Suc_eq_le length_dropWhile_le
      split: list.splits if_splits)

lemma parse_frac_part_length:
  "parse_frac_part cs = Some (fs, r) \<Longrightarrow> length r \<le> length cs"
  by (auto simp: parse_frac_part_def le_SucI length_dropWhile_le split: list.splits if_splits)

lemma parse_exp_part_length:
  "parse_exp_part cs = Some (e, r) \<Longrightarrow> length r \<le> length cs"
  by (auto simp: parse_exp_part_def Let_def le_SucI length_dropWhile_le
      split: list.splits if_splits)

lemma parse_number_length:
  assumes "parse_number cs = Some (x, r)"
  shows "length r < length cs"
proof -
  obtain neg cs1 where n: "(case cs of [] \<Rightarrow> (False, cs)
      | m # q \<Rightarrow> if m = 0x2D then (True, q) else (False, cs)) = (neg, cs1)"
    by (cases "(case cs of [] \<Rightarrow> (False, cs)
      | m # q \<Rightarrow> if m = 0x2D then (True, q) else (False, cs))") auto
  then have l1: "length cs1 \<le> length cs"
    by (auto split: list.splits if_splits)
  from assms n obtain ds cs2 fs cs3 ex where
    "parse_int_part cs1 = Some (ds, cs2)" "parse_frac_part cs2 = Some (fs, cs3)"
    "parse_exp_part cs3 = Some (ex, r)"
    by (auto simp: parse_number_def split: option.splits)
  then have "length cs2 < length cs1" "length cs3 \<le> length cs2" "length r \<le> length cs3"
    by (auto dest: parse_int_part_length parse_frac_part_length parse_exp_part_length)
  with l1 show ?thesis by simp
qed

lemma skip_ws_ConsD: "skip_ws cs = c # r \<Longrightarrow> length r < length cs"
  using length_skip_ws [of cs] by simp

lemma parse_consumes:
  "parse_value cs = Some (v, r) \<Longrightarrow> length r < length cs"
  "parse_elems cs = Some (vs, r') \<Longrightarrow> length r' < length cs"
  "parse_members cs = Some (ms, r'') \<Longrightarrow> length r'' < length cs"
proof (induction cs and cs and cs arbitrary: v r and vs r' and ms r''
    rule: parse_value_parse_elems_parse_members.induct)
  case (1 cs)
  from "1.prems" obtain c q where sk: "skip_ws cs = c # q"
    by (subst (asm) parse_value.simps) (auto split: list.splits)
  then have lq: "length q < length cs" by (rule skip_ws_ConsD)
  consider (arr) "c = 0x5B" | (obj) "c \<noteq> 0x5B" "c = 0x7B" | (other) "c \<noteq> 0x5B" "c \<noteq> 0x7B"
    by blast
  then show ?case
  proof cases
    case arr
    from "1.prems" sk arr obtain d r1 where sk2: "skip_ws q = d # r1"
      by (subst (asm) parse_value.simps) (auto split: list.splits)
    then have l1: "length r1 < length q" by (rule skip_ws_ConsD)
    show ?thesis
    proof (cases "d = 0x5D")
      case True
      with "1.prems" sk arr sk2 have "r = r1"
        by (subst (asm) parse_value.simps) simp
      with l1 lq show ?thesis by simp
    next
      case False
      with "1.prems" sk arr sk2 obtain vs where "parse_elems q = Some (vs, r)"
        by (subst (asm) parse_value.simps) (auto split: option.splits)
      then have "length r < length q"
        using "1.IH"(1) sk arr sk2 False by blast
      with lq show ?thesis by simp
    qed
  next
    case obj
    from "1.prems" sk obj obtain d r1 where sk2: "skip_ws q = d # r1"
      by (subst (asm) parse_value.simps) (auto split: list.splits)
    then have l1: "length r1 < length q" by (rule skip_ws_ConsD)
    show ?thesis
    proof (cases "d = 0x7D")
      case True
      with "1.prems" sk obj sk2 have "r = r1"
        by (subst (asm) parse_value.simps) simp
      with l1 lq show ?thesis by simp
    next
      case False
      with "1.prems" sk obj sk2 obtain ms where "parse_members q = Some (ms, r)"
        by (subst (asm) parse_value.simps) (auto split: option.splits)
      then have "length r < length q"
        using "1.IH"(2) sk obj sk2 False by blast
      with lq show ?thesis by simp
    qed
  next
    case other
    have "length (c # q) \<le> length cs" using lq by simp
    with "1.prems" sk other show ?thesis
      by (subst (asm) parse_value.simps)
        (auto split: if_splits option.splits dest!: parse_chars_length parse_number_length)
  qed
next
  case (2 cs)
  from "2.prems" obtain v r where pv: "parse_value cs = Some (v, r)"
    by (subst (asm) parse_elems.simps) (auto split: option.splits)
  then have lr: "length r < length cs" by (rule "2.IH"(1))
  from "2.prems" pv obtain d r1 where sk: "skip_ws r = d # r1"
    by (subst (asm) parse_elems.simps) (auto split: list.splits)
  then have l1: "length r1 < length r" by (rule skip_ws_ConsD)
  show ?case
  proof (cases "d = 0x2C")
    case True
    with "2.prems" pv sk l1 lr obtain ws where pe: "parse_elems r1 = Some (ws, r')"
      by (subst (asm) parse_elems.simps) (auto split: option.splits)
    have g: "length r1 < length cs" using l1 lr by simp
    have "length r' < length r1"
      by (rule "2.IH"(2) [OF pv refl sk True g pe])
    with l1 lr show ?thesis by simp
  next
    case False
    with "2.prems" pv sk have "r' = r1"
      by (subst (asm) parse_elems.simps) (auto split: if_splits)
    with l1 lr show ?thesis by simp
  qed
next
  case (3 cs)
  from "3.prems" obtain q r where sk: "skip_ws cs = q # r" and q: "q = 0x22"
    by (subst (asm) parse_members.simps) (auto split: list.splits if_splits)
  then have lr: "length r < length cs" by (auto dest: skip_ws_ConsD)
  from "3.prems" sk q obtain k r1 where pc: "parse_chars r = Some (k, r1)"
    by (subst (asm) parse_members.simps) (auto split: option.splits)
  then have l1: "length r1 < length r" by (rule parse_chars_length)
  from "3.prems" sk q pc obtain col r2 where sk2: "skip_ws r1 = col # r2" and col: "col = 0x3A"
    by (subst (asm) parse_members.simps) (auto split: list.splits if_splits)
  then have l2: "length r2 < length r1" by (auto dest: skip_ws_ConsD)
  from "3.prems" sk q pc sk2 col obtain v r3 where pv: "parse_value r2 = Some (v, r3)"
    by (subst (asm) parse_members.simps) (auto split: option.splits)
  then have l3: "length r3 < length r2"
    by (rule "3.IH"(1) [OF sk q pc refl sk2 col])
  from "3.prems" sk q pc sk2 col pv obtain d r4 where sk3: "skip_ws r3 = d # r4"
    by (subst (asm) parse_members.simps) (auto split: list.splits)
  then have l4: "length r4 < length r3" by (rule skip_ws_ConsD)
  show ?case
  proof (cases "d = 0x2C")
    case True
    with "3.prems" sk q pc sk2 col pv sk3 lr l1 l2 l3 l4
    obtain ws where pm: "parse_members r4 = Some (ws, r'')"
      by (subst (asm) parse_members.simps) (auto split: option.splits)
    have g: "length r4 < length cs" using lr l1 l2 l3 l4 by simp
    have "length r'' < length r4"
      by (rule "3.IH"(2) [OF sk q pc refl sk2 col pv refl sk3 True g pm])
    with lr l1 l2 l3 l4 show ?thesis by simp
  next
    case False
    with "3.prems" sk q pc sk2 col pv sk3 have "r'' = r4"
      by (subst (asm) parse_members.simps) (auto split: if_splits)
    with lr l1 l2 l3 l4 show ?thesis by simp
  qed
qed

lemma parse_elems_eq:
  "parse_elems cs =
     (case parse_value cs of
        None \<Rightarrow> None
      | Some (v, r) \<Rightarrow>
          (case skip_ws r of
             [] \<Rightarrow> None
           | d # r1 \<Rightarrow>
               if d = 0x2C then
                 (case parse_elems r1 of
                    None \<Rightarrow> None
                  | Some (vs, r2) \<Rightarrow> Some (v # vs, r2))
               else if d = 0x5D then Some ([v], r1)
               else None))"
proof -
  have "length r1 < length cs" if "parse_value cs = Some (v, r)" "skip_ws r = d # r1"
    for v r d r1
    using parse_consumes(1) [OF that(1)] skip_ws_ConsD [OF that(2)] by simp
  then show ?thesis
    by (subst parse_elems.simps) (simp split: option.splits list.splits)
qed

lemma parse_members_eq:
  "parse_members cs =
     (case skip_ws cs of
        [] \<Rightarrow> None
      | q # r \<Rightarrow>
          if q = 0x22 then
            (case parse_chars r of
               None \<Rightarrow> None
             | Some (k, r1) \<Rightarrow>
                 (case skip_ws r1 of
                    [] \<Rightarrow> None
                  | col # r2 \<Rightarrow>
                      if col = 0x3A then
                        (case parse_value r2 of
                           None \<Rightarrow> None
                         | Some (v, r3) \<Rightarrow>
                             (case skip_ws r3 of
                                [] \<Rightarrow> None
                              | d # r4 \<Rightarrow>
                                  if d = 0x2C then
                                    (case parse_members r4 of
                                       None \<Rightarrow> None
                                     | Some (ms, r5) \<Rightarrow> Some ((k, v) # ms, r5))
                                  else if d = 0x7D then Some ([(k, v)], r4)
                                  else None))
                      else None))
          else None)"
proof -
  have "length r4 < length cs"
    if "skip_ws cs = q # r" "parse_chars r = Some (k, r1)" "skip_ws r1 = col # r2"
      "parse_value r2 = Some (v, r3)" "skip_ws r3 = d # r4"
    for q r k r1 col r2 v r3 d r4
    using skip_ws_ConsD [OF that(1)] parse_chars_length [OF that(2)] skip_ws_ConsD [OF that(3)]
      parse_consumes(1) [OF that(4)] skip_ws_ConsD [OF that(5)]
    by simp
  then show ?thesis
    by (subst parse_members.simps) (simp split: option.splits list.splits)
qed

section \<open>Reading back what \<open>QuoteJSONString\<close> writes\<close>











section \<open>Reading back the digits of a number\<close>











section \<open>Reading back a task and a list of tasks\<close>











lemma stringify_elems_Cons:
  "stringify_elems (t # ts) =
     (if ts = [] then stringify_todo t else stringify_todo t @ 0x2C # stringify_elems ts)"
  by (cases ts) simp_all






section \<open>Loading and persisting\<close>


lemma load_cases:
  "load st =
     (case getItem st todos_key of
        Throws \<Rightarrow> JArr []
      | Returns None \<Rightarrow> JArr []
      | Returns (Some raw) \<Rightarrow>
          if raw = [] then JArr []
          else (case JSON_parse raw of None \<Rightarrow> JArr [] | Some v \<Rightarrow> v))"
  by (simp add: load_def useLocalStorage_initial_def split: outcome.splits option.splits)

text \<open>
  Claim C1, as the code has it. \<open>load\<close> returns the empty list when reading the store
  throws, when the key is absent, when the stored string is empty and when the stored
  string is not JSON text; a stored string that is JSON text is returned as
  \<open>JSON.parse\<close> reads it, whatever its shape. \<open>load\<close> is a total function into the JSON
  values: in no case does it pass an error on.
\<close>

theorem load_falls_back_to_empty_list:
  "(getItem st todos_key = Throws \<longrightarrow> load st = JArr [])
   \<and> (getItem st todos_key = Returns None \<longrightarrow> load st = JArr [])
   \<and> (getItem st todos_key = Returns (Some []) \<longrightarrow> load st = JArr [])
   \<and> (getItem st todos_key = Returns (Some raw) \<and> JSON_parse raw = None \<longrightarrow> load st = JArr [])
   \<and> (getItem st todos_key = Returns (Some raw) \<and> raw \<noteq> [] \<and> JSON_parse raw = Some v \<longrightarrow>
        load st = v)"
  by (simp add: load_cases)

lemma parse_42: "JSON_parse (lit ''42'') = Some (JNum 42)"
  by code_simp

lemma parse_truncated: \<open>JSON_parse (lit ''[{"id":'') = None\<close>
  by code_simp

lemma parse_array_42: "JSON_parse (lit ''[42]'') = Some (JArr [JNum 42])"
  by code_simp

theorem load_falls_back_to_empty_list_witness:
  \<open>getItem \<lparr>items = Map.empty, getItem_throws = True, setItem_throws = False\<rparr> todos_key
     = Throws
   \<and> load \<lparr>items = Map.empty, getItem_throws = True, setItem_throws = False\<rparr> = JArr []
   \<and> getItem \<lparr>items = Map.empty, getItem_throws = False, setItem_throws = False\<rparr> todos_key
     = Returns None
   \<and> load \<lparr>items = Map.empty, getItem_throws = False, setItem_throws = False\<rparr> = JArr []
   \<and> getItem \<lparr>items = [todos_key \<mapsto> []], getItem_throws = False, setItem_throws = False\<rparr>
       todos_key = Returns (Some [])
   \<and> load \<lparr>items = [todos_key \<mapsto> []], getItem_throws = False, setItem_throws = False\<rparr>
     = JArr []
   \<and> getItem \<lparr>items = [todos_key \<mapsto> lit ''[{"id":''], getItem_throws = False,
        setItem_throws = False\<rparr> todos_key = Returns (Some (lit ''[{"id":''))
   \<and> JSON_parse (lit ''[{"id":'') = None
   \<and> load \<lparr>items = [todos_key \<mapsto> lit ''[{"id":''], getItem_throws = False,
        setItem_throws = False\<rparr> = JArr []
   \<and> getItem \<lparr>items = [todos_key \<mapsto> lit ''[42]''], getItem_throws = False,
        setItem_throws = False\<rparr> todos_key = Returns (Some (lit ''[42]''))
   \<and> lit ''[42]'' \<noteq> []
   \<and> JSON_parse (lit ''[42]'') = Some (JArr [JNum 42])
   \<and> load \<lparr>items = [todos_key \<mapsto> lit ''[42]''], getItem_throws = False,
        setItem_throws = False\<rparr> = JArr [JNum 42]\<close>
proof -
  let ?s1 = "\<lparr>items = Map.empty, getItem_throws = True, setItem_throws = False\<rparr>"
  let ?s2 = "\<lparr>items = Map.empty, getItem_throws = False, setItem_throws = False\<rparr>"
  let ?s3 = "\<lparr>items = [todos_key \<mapsto> []], getItem_throws = False, setItem_throws = False\<rparr>"
  let ?r4 = \<open>lit ''[{"id":''\<close>
  let ?s4 = "\<lparr>items = [todos_key \<mapsto> ?r4], getItem_throws = False, setItem_throws = False\<rparr>"
  let ?r5 = "lit ''[42]''"
  let ?s5 = "\<lparr>items = [todos_key \<mapsto> ?r5], getItem_throws = False, setItem_throws = False\<rparr>"
  have g1: "getItem ?s1 todos_key = Throws" by (simp add: getItem_def)
  have g2: "getItem ?s2 todos_key = Returns None" by (simp add: getItem_def)
  have g3: "getItem ?s3 todos_key = Returns (Some [])" by (simp add: getItem_def)
  have g4: "getItem ?s4 todos_key = Returns (Some ?r4)" by (simp add: getItem_def)
  have g5: "getItem ?s5 todos_key = Returns (Some ?r5)" by (simp add: getItem_def)
  have n5: "?r5 \<noteq> []" by (simp add: lit_def)
  have l1: "load ?s1 = JArr []"
    using g1 load_falls_back_to_empty_list [of ?s1 "[]" JNull] by blast
  have l2: "load ?s2 = JArr []"
    using g2 load_falls_back_to_empty_list [of ?s2 "[]" JNull] by blast
  have l3: "load ?s3 = JArr []"
    using g3 load_falls_back_to_empty_list [of ?s3 "[]" JNull] by blast
  have l4: "load ?s4 = JArr []"
    using g4 parse_truncated load_falls_back_to_empty_list [of ?s4 ?r4 JNull] by blast
  have l5: "load ?s5 = JArr [JNum 42]"
    using g5 n5 parse_array_42 load_falls_back_to_empty_list [of ?s5 ?r5 "JArr [JNum 42]"]
    by blast
  show ?thesis
    using g1 g2 g3 g4 g5 n5 l1 l2 l3 l4 l5 parse_truncated parse_array_42 by blast
qed

text \<open>
  The claim as stated fails on a stored value that is JSON text of another shape: the
  stored string \<open>42\<close> is not an array of task objects, and \<open>load\<close> returns the number
  42, not the empty list.
\<close>

theorem load_returns_non_list_counterexample:
  "\<not> is_task_array (JNum 42)
   \<and> JSON_parse (lit ''42'') = Some (JNum 42)
   \<and> load \<lparr>items = [todos_key \<mapsto> lit ''42''], getItem_throws = False, setItem_throws = False\<rparr>
       = JNum 42
   \<and> load \<lparr>items = [todos_key \<mapsto> lit ''42''], getItem_throws = False, setItem_throws = False\<rparr>
       \<noteq> JArr []"
  by (simp add: load_cases getItem_def parse_42 is_task_array_def) (simp add: lit_def)





text \<open>What is written for a list of two tasks, one with a text that needs escapes.\<close>

lemma JSON_stringify_todos_example:
  \<open>JSON_stringify_todos
     [\<lparr>todo_id = lit ''b'', todo_text = lit ''Walk dog'', todo_done = True,
        createdAt = 1700000000009\<rparr>,
      \<lparr>todo_id = lit ''a'', todo_text = 0x22 # lit ''Buy'' @ [0x0A, 0xD83D, 0xDE00, 0xDC00],
        todo_done = False, createdAt = 7\<rparr>]
   = lit ''[{"id":"b","text":"Walk dog","done":true,"createdAt":1700000000009},'' @
     lit ''{"id":"a","text":"'' @ [0x5C, 0x22] @ lit ''Buy'' @
     [0x5C, 0x6E, 0xD83D, 0xDE00, 0x5C] @ lit ''udc00","done":false,"createdAt":7}]''\<close>
  by code_simp

end
